theory Spec2Isabelle
  imports Main "HOL-Library.AList"
begin

section \<open>The auto-restart wrapper \<open>run_bot_with_autorestart.py\<close>\<close>

text \<open>
  The script is one sequential program: a banner, two module-level variables
  (\<open>restart_count\<close>, \<open>env\<close>) and a \<open>while True\<close> loop whose body is one
  \<open>try\<close> statement with two handlers. It talks to the outside world through
  \<open>print\<close>, \<open>time.sleep\<close>, \<open>subprocess.run\<close> and \<open>sys.exit\<close>.

  The embedding makes the outside world explicit. What the program does is recorded
  as a list of events. What the world answers to each blocking call of one pass of the
  loop body is a record (\<open>world\<close>): a sleep runs to its end or is cut short by an
  interrupt signal; \<open>subprocess.run\<close> returns the exit status of the child, raises a
  fault, or is cut short by an interrupt signal. What standard output does with each
  message is a function (\<open>stdout\<close>): it takes the message, or \<open>print\<close> raises. A run
  is driven by the standard output met by the banner and by a list of passes, each a
  standard output and a world. A run that has used up its list is still running: an
  unbounded loop is one that is still running after every finite list.

  An interrupt signal is taken to arrive during a blocking call, where the supervisor
  spends its time, not between two of them.
\<close>

subsection \<open>Data\<close>

text \<open>A process environment (\<open>os.environ\<close>, a \<open>dict\<close> of strings in insertion order).\<close>

type_synonym environ = "(string \<times> string) list"

text \<open>
  The exceptions that occur: \<open>KeyboardInterrupt\<close> and \<open>SystemExit\<close> derive from
  \<open>BaseException\<close> only; what \<open>subprocess.run\<close> raises on a failed spawn or wait
  and what \<open>print\<close> raises (\<open>UnicodeEncodeError\<close>, \<open>OSError\<close>) derive from
  \<open>Exception\<close> and are kept with their description \<open>str(e)\<close>.
\<close>

datatype exc = KeyboardInterrupt | Exception string | SystemExit int

text \<open>
  One constructor per \<open>print\<close> call of the source, with the values its f-string
  interpolates.
\<close>

datatype message =
    Rule                  \<comment> \<open>lines 15, 17, 21: \<open>"=" * 80\<close>\<close>
  | Title                 \<comment> \<open>line 16\<close>
  | BotScriptIs string    \<comment> \<open>line 18: \<open>f"Bot script: {BOT_SCRIPT}"\<close>\<close>
  | WillRestart           \<comment> \<open>line 19\<close>
  | PressCtrlC            \<comment> \<open>line 20\<close>
  | Blank                 \<comment> \<open>line 22: \<open>print()\<close>\<close>
  | RuleAbove             \<comment> \<open>line 35\<close>
  | Restarting int        \<comment> \<open>line 36: \<open>restart #{restart_count}\<close>\<close>
  | RuleBelow             \<comment> \<open>line 37\<close>
  | CleanExit             \<comment> \<open>line 53: the confirmation that the bot exited with code 0\<close>
  | ExitedWithCode int    \<comment> \<open>line 57: \<open>Bot exited with code {exit_code}. Restarting...\<close>\<close>
  | Waiting3              \<comment> \<open>line 60\<close>
  | CtrlCDetected         \<comment> \<open>line 65: the shutdown message\<close>
  | ErrorRunning string   \<comment> \<open>line 68: \<open>Error running bot: {e}\<close>\<close>
  | Retrying10            \<comment> \<open>line 69\<close>

text \<open>
  The observable events of a run. \<open>Print m\<close> is a \<open>print\<close> that wrote its message;
  \<open>PrintFailed m d\<close> is a \<open>print\<close> of \<open>m\<close> that raised an \<open>Exception\<close> with
  description \<open>d\<close>; \<open>Sleep n\<close> is a \<open>time.sleep(n)\<close> that ran to its end;
  \<open>Launch argv cwd env\<close> is a call of \<open>subprocess.run\<close>; \<open>ChildExit c\<close> is that call
  returning with \<open>returncode = c\<close>; \<open>LaunchFault d\<close> is that call raising an
  \<open>Exception\<close> with description \<open>d\<close>; \<open>Interrupt\<close> is a blocking call cut short by
  \<open>KeyboardInterrupt\<close>.
\<close>

datatype event =
    Print message
  | PrintFailed message string
  | Sleep nat
  | Launch "string list" string environ
  | ChildExit int
  | LaunchFault string
  | Interrupt

text \<open>The answers of the world to the blocking calls.\<close>

datatype sleep_answer = Slept | SleepInterrupted

datatype run_answer = Exited int | Failed string | RunInterrupted

text \<open>
  One pass of the loop body makes each of its four blocking calls at most once; the
  record gives the answer to each of them, should it be made. \<open>live_environ\<close> is
  \<open>os.environ\<close> as it stands during that pass; the loop never reads it.
\<close>

record world =
  pause2 :: sleep_answer     \<comment> \<open>line 38: \<open>time.sleep(2)\<close>\<close>
  child :: run_answer        \<comment> \<open>lines 42-46: \<open>subprocess.run(...)\<close>\<close>
  pause3 :: sleep_answer     \<comment> \<open>line 61: \<open>time.sleep(3)\<close>\<close>
  pause10 :: sleep_answer    \<comment> \<open>line 70: \<open>time.sleep(10)\<close>\<close>
  live_environ :: environ

text \<open>
  Standard output: \<open>None\<close> when it takes the message, \<open>Some d\<close> when printing the
  message raises an \<open>Exception\<close> with description \<open>d\<close>. \<open>works\<close> takes everything.
\<close>

type_synonym stdout = "message \<Rightarrow> string option"

definition works :: stdout where
  "works m = None"

text \<open>
  What is fixed before the loop and comes from the installation: \<open>sys.executable\<close>,
  \<open>str(SCRIPT_DIR)\<close> and \<open>str(BOT_SCRIPT)\<close> (lines 12-13, computed by \<open>pathlib\<close>).
\<close>

record config =
  sys_executable :: string
  script_dir :: string
  bot_script :: string

text \<open>The two module-level variables the loop uses (lines 24, 28-29).\<close>

record state =
  restart_count :: int
  env :: environ

text \<open>
  How the process ends: by running off the end of the script after \<open>break\<close>
  (\<open>Finished\<close>), or by an exception that leaves the script (\<open>Raised\<close>; for
  \<open>SystemExit n\<close> the interpreter exits with status \<open>n\<close>, for anything else it prints
  a traceback and the status is not 0).
\<close>

datatype ending = Finished | Raised exc

datatype flow = Break | Continue

subsection \<open>Statements\<close>

text \<open>
  A statement yields the events it caused and either the exception it raised or its
  value. \<open>andthen\<close> is sequencing: an exception skips the rest.
\<close>

type_synonym 'a io = "event list \<times> (exc + 'a)"

fun andthen :: "'a io \<Rightarrow> ('a \<Rightarrow> 'b io) \<Rightarrow> 'b io" where
  "andthen (es, Inl x) f = (es, Inl x)"
| "andthen (es, Inr a) f = (case f a of (es', r) \<Rightarrow> (es @ es', r))"

definition return :: "'a \<Rightarrow> 'a io" where
  "return a = ([], Inr a)"

definition py_print :: "stdout \<Rightarrow> message \<Rightarrow> unit io" where
  "py_print out m =
     (case out m of
        None \<Rightarrow> ([Print m], Inr ())
      | Some d \<Rightarrow> ([PrintFailed m d], Inl (Exception d)))"

definition time_sleep :: "nat \<Rightarrow> sleep_answer \<Rightarrow> unit io" where
  "time_sleep n a =
     (case a of
        Slept \<Rightarrow> ([Sleep n], Inr ())
      | SleepInterrupted \<Rightarrow> ([Interrupt], Inl KeyboardInterrupt))"

definition subprocess_run :: "string list \<Rightarrow> string \<Rightarrow> environ \<Rightarrow> run_answer \<Rightarrow> int io" where
  "subprocess_run argv cwd e a =
     (case a of
        Exited c \<Rightarrow> ([Launch argv cwd e, ChildExit c], Inr c)
      | Failed d \<Rightarrow> ([Launch argv cwd e, LaunchFault d], Inl (Exception d))
      | RunInterrupted \<Rightarrow> ([Launch argv cwd e, Interrupt], Inl KeyboardInterrupt))"

definition sys_exit :: "int \<Rightarrow> 'a io" where
  "sys_exit n = ([], Inl (SystemExit n))"

subsection \<open>The loop body\<close>

text \<open>
  The \<open>try\<close> block, on the standard output \<open>out\<close>, in three parts. Lines 34-38:
  the notice and the pause that precede every launch but the first.
\<close>

definition pause_between_restarts :: "stdout \<Rightarrow> state \<Rightarrow> world \<Rightarrow> unit io" where
  "pause_between_restarts out st1 w =
     (if restart_count st1 > 1 then
        andthen (py_print out RuleAbove) (\<lambda>_.
        andthen (py_print out (Restarting (restart_count st1))) (\<lambda>_.
        andthen (py_print out RuleBelow) (\<lambda>_.
        time_sleep 2 (pause2 w))))
      else return ())"

text \<open>Lines 51-62: what is done with the exit status of the child.\<close>

definition after_exit :: "stdout \<Rightarrow> world \<Rightarrow> int \<Rightarrow> flow io" where
  "after_exit out w exit_code =
     (if exit_code = 0 then
        andthen (py_print out CleanExit) (\<lambda>_. return Break)
      else
        andthen (py_print out (ExitedWithCode exit_code)) (\<lambda>_.
        andthen
          (if exit_code \<noteq> 1 then
             andthen (py_print out Waiting3) (\<lambda>_. time_sleep 3 (pause3 w))
           else return ()) (\<lambda>_.
        return Continue)))"

text \<open>
  Lines 33-62. The counter is incremented first, so the new state is the same whether
  the block ends normally or by an exception.
\<close>

definition try_block_on :: "stdout \<Rightarrow> config \<Rightarrow> state \<Rightarrow> world \<Rightarrow> state \<times> flow io" where
  "try_block_on out cfg st w =
     (let st1 = st\<lparr>restart_count := restart_count st + 1\<rparr> in
      (st1,
       andthen (pause_between_restarts out st1 w) (\<lambda>_.
       andthen
         (subprocess_run [sys_executable cfg, bot_script cfg] (script_dir cfg)
            (env st1) (child w)) (\<lambda>exit_code.
       after_exit out w exit_code))))"

text \<open>
  Lines 64-70, the handlers, each run outside the \<open>try\<close> block: what a handler
  raises is caught by neither handler and leaves the loop.
\<close>

definition on_keyboard_interrupt :: "stdout \<Rightarrow> unit io" where
  "on_keyboard_interrupt out = andthen (py_print out CtrlCDetected) (\<lambda>_. sys_exit 0)"

definition on_exception :: "stdout \<Rightarrow> string \<Rightarrow> world \<Rightarrow> unit io" where
  "on_exception out e w =
     andthen (py_print out (ErrorRunning e)) (\<lambda>_.
     andthen (py_print out Retrying10) (\<lambda>_.
     time_sleep 10 (pause10 w)))"

text \<open>
  One pass of \<open>while True\<close>: the events, and either how the process ended (\<open>Inl\<close>) or
  the state with which the next pass starts (\<open>Inr\<close>).
\<close>

definition body_on :: "stdout \<Rightarrow> config \<Rightarrow> state \<Rightarrow> world \<Rightarrow> event list \<times> (ending + state)" where
  "body_on out cfg st w =
     (case try_block_on out cfg st w of
        (st1, es, Inr Break) \<Rightarrow> (es, Inl Finished)
      | (st1, es, Inr Continue) \<Rightarrow> (es, Inr st1)
      | (st1, es, Inl KeyboardInterrupt) \<Rightarrow>
          (case on_keyboard_interrupt out of
             (es', Inl x) \<Rightarrow> (es @ es', Inl (Raised x))
           | (es', Inr _) \<Rightarrow> (es @ es', Inr st1))
      | (st1, es, Inl (Exception e)) \<Rightarrow>
          (case on_exception out e w of
             (es', Inl x) \<Rightarrow> (es @ es', Inl (Raised x))
           | (es', Inr _) \<Rightarrow> (es @ es', Inr st1))
      | (st1, es, Inl (SystemExit n)) \<Rightarrow> (es, Inl (Raised (SystemExit n))))"

subsection \<open>The loop and the script\<close>

fun loop_on :: "config \<Rightarrow> state \<Rightarrow> (stdout \<times> world) list \<Rightarrow> event list \<times> (ending + state)" where
  "loop_on cfg st [] = ([], Inr st)"
| "loop_on cfg st ((out, w) # ows) =
     (case body_on out cfg st w of
        (es, Inl x) \<Rightarrow> (es, Inl x)
      | (es, Inr st') \<Rightarrow> (case loop_on cfg st' ows of (es', r) \<Rightarrow> (es @ es', r)))"

text \<open>Lines 15-22.\<close>

definition banner_on :: "stdout \<Rightarrow> config \<Rightarrow> unit io" where
  "banner_on out cfg =
     andthen (py_print out Rule) (\<lambda>_.
     andthen (py_print out Title) (\<lambda>_.
     andthen (py_print out Rule) (\<lambda>_.
     andthen (py_print out (BotScriptIs (bot_script cfg))) (\<lambda>_.
     andthen (py_print out WillRestart) (\<lambda>_.
     andthen (py_print out PressCtrlC) (\<lambda>_.
     andthen (py_print out Rule) (\<lambda>_.
     py_print out Blank)))))))"

text \<open>Lines 24-29: the counter, and the copy of the environment with the marker.\<close>

definition startup :: "environ \<Rightarrow> state" where
  "startup os_environ =
     \<lparr>restart_count = 0, env = AList.update ''BOT_AUTO_RESTART'' ''1'' os_environ\<rparr>"

text \<open>
  The whole script, started in the process environment \<open>os_environ\<close>; the banner
  meets the standard output \<open>out0\<close>, and the loop is driven through the passes \<open>ows\<close>.
  An exception raised by the banner ends the script before the loop.
\<close>

definition main_on ::
  "stdout \<Rightarrow> config \<Rightarrow> environ \<Rightarrow> (stdout \<times> world) list \<Rightarrow> event list \<times> (ending + state)" where
  "main_on out0 cfg os_environ ows =
     (case banner_on out0 cfg of
        (es, Inl x) \<Rightarrow> (es, Inl (Raised x))
      | (es, Inr _) \<Rightarrow>
          (case loop_on cfg (startup os_environ) ows of (es', r) \<Rightarrow> (es @ es', r)))"

subsection \<open>The script on a standard output that works\<close>

text \<open>
  The same definitions with every \<open>print\<close> succeeding: the \<open>try\<close> block, one pass,
  the loop, what the banner writes, and the whole script.
\<close>

definition try_block :: "config \<Rightarrow> state \<Rightarrow> world \<Rightarrow> state \<times> flow io" where
  "try_block cfg st w = try_block_on works cfg st w"

definition body :: "config \<Rightarrow> state \<Rightarrow> world \<Rightarrow> event list \<times> (ending + state)" where
  "body cfg st w = body_on works cfg st w"

definition loop :: "config \<Rightarrow> state \<Rightarrow> world list \<Rightarrow> event list \<times> (ending + state)" where
  "loop cfg st ws = loop_on cfg st (map (Pair works) ws)"

definition banner :: "config \<Rightarrow> event list" where
  "banner cfg =
     [Print Rule, Print Title, Print Rule, Print (BotScriptIs (bot_script cfg)),
      Print WillRestart, Print PressCtrlC, Print Rule, Print Blank]"

definition main :: "config \<Rightarrow> environ \<Rightarrow> world list \<Rightarrow> event list \<times> (ending + state)" where
  "main cfg os_environ ws = main_on works cfg os_environ (map (Pair works) ws)"

subsection \<open>Reading a trace\<close>

fun is_launch :: "event \<Rightarrow> bool" where
  "is_launch (Launch _ _ _) = True"
| "is_launch _ = False"

fun duration :: "event \<Rightarrow> nat" where
  "duration (Sleep n) = n"
| "duration _ = 0"

text \<open>The number of launches in a trace, and the time it spends asleep.\<close>

definition launches :: "event list \<Rightarrow> nat" where
  "launches es = length (filter is_launch es)"

definition slept :: "event list \<Rightarrow> nat" where
  "slept es = sum_list (map duration es)"

fun sleeps :: "event list \<Rightarrow> nat list" where
  "sleeps [] = []"
| "sleeps (Sleep n # es) = n # sleeps es"
| "sleeps (_ # es) = sleeps es"

text \<open>The environments handed to the children, launch by launch.\<close>

fun launch_envs :: "event list \<Rightarrow> environ list" where
  "launch_envs [] = []"
| "launch_envs (Launch _ _ e # es) = e # launch_envs es"
| "launch_envs (_ # es) = launch_envs es"

subsection \<open>Names for the parts of a pass\<close>

text \<open>
  The state after line 33; the events of lines 35-38 when the pause runs to its end;
  the call of lines 42-46; and the condition under which a pass gets as far as that
  call (nothing but an interrupted \<open>time.sleep(2)\<close> can prevent it).
\<close>

definition bump :: "state \<Rightarrow> state" where
  "bump st = st\<lparr>restart_count := restart_count st + 1\<rparr>"

definition notice :: "state \<Rightarrow> event list" where
  "notice st =
     (if restart_count st + 1 > 1 then
        [Print RuleAbove, Print (Restarting (restart_count st + 1)), Print RuleBelow, Sleep 2]
      else [])"

definition the_launch :: "config \<Rightarrow> state \<Rightarrow> event" where
  "the_launch cfg st = Launch [sys_executable cfg, bot_script cfg] (script_dir cfg) (env st)"

definition reaches_launch :: "state \<Rightarrow> world \<Rightarrow> bool" where
  "reaches_launch st w = (restart_count st + 1 > 1 \<longrightarrow> pause2 w = Slept)"

subsection \<open>Sample inputs\<close>

definition example_config :: config where
  "example_config =
     \<lparr>sys_executable = ''/usr/bin/python3'', script_dir = ''/srv/bot'',
      bot_script = ''/srv/bot/BOT/app_20.py''\<rparr>"

text \<open>A pass during which no interrupt arrives and the child call is answered by \<open>a\<close>.\<close>

definition calm :: "run_answer \<Rightarrow> world" where
  "calm a = \<lparr>pause2 = Slept, child = a, pause3 = Slept, pause10 = Slept, live_environ = []\<rparr>"

subsection \<open>Notions used in the statements\<close>

text \<open>An interrupt signal arrives during one of the blocking calls of the pass.\<close>

definition interrupted :: "world \<Rightarrow> bool" where
  "interrupted w =
     (pause2 w = SleepInterrupted \<or> child w = RunInterrupted \<or> pause3 w = SleepInterrupted \<or>
      pause10 w = SleepInterrupted)"

text \<open>
  The overlay in the words of the specification, not of the source: recomputed for each
  launch from the environment as it stands at that launch, plus the marker.
\<close>

definition spec_overlay :: "world \<Rightarrow> environ" where
  "spec_overlay w = AList.update ''BOT_AUTO_RESTART'' ''1'' (live_environ w)"





text \<open>
  The messages printed inside the \<open>try\<close> block (lines 35-37, 53, 57, 60); the others
  are printed by the banner or by a handler.
\<close>

fun inside_try :: "message \<Rightarrow> bool" where
  "inside_try RuleAbove = True"
| "inside_try (Restarting _) = True"
| "inside_try RuleBelow = True"
| "inside_try CleanExit = True"
| "inside_try (ExitedWithCode _) = True"
| "inside_try Waiting3 = True"
| "inside_try _ = False"

text \<open>The events that come from \<open>subprocess.run\<close>.\<close>

fun about_child :: "event \<Rightarrow> bool" where
  "about_child (Launch _ _ _) = True"
| "about_child (ChildExit _) = True"
| "about_child (LaunchFault _) = True"
| "about_child _ = False"

subsection \<open>Sample standard outputs\<close>

text \<open>
  The messages whose literal holds an emoji (lines 16, 36, 53, 57, 65, 68), and a
  standard output whose encoding has none: printing such a message to it raises
  \<open>UnicodeEncodeError\<close>.
\<close>

fun has_emoji :: "message \<Rightarrow> bool" where
  "has_emoji Title = True"
| "has_emoji (Restarting _) = True"
| "has_emoji CleanExit = True"
| "has_emoji (ExitedWithCode _) = True"
| "has_emoji CtrlCDetected = True"
| "has_emoji (ErrorRunning _) = True"
| "has_emoji _ = False"

definition ascii_only :: stdout where
  "ascii_only m = (if has_emoji m then Some ''UnicodeEncodeError'' else None)"

text \<open>A standard output whose reader has gone: every \<open>print\<close> raises.\<close>

definition closed_pipe :: stdout where
  "closed_pipe m = Some ''Broken pipe''"

text \<open>A standard output that fails for the messages of the \<open>try\<close> block only.\<close>

definition stutters :: stdout where
  "stutters m = (if inside_try m then Some ''Interrupted system call'' else None)"

section \<open>One pass of the loop, case by case\<close>

lemmas body_on_defs = body_on_def try_block_on_def pause_between_restarts_def
  after_exit_def on_exception_def
  on_keyboard_interrupt_def py_print_def time_sleep_def subprocess_run_def sys_exit_def
  return_def notice_def the_launch_def bump_def

lemmas body_defs = body_def try_block_def works_def body_on_defs

lemma loop_Nil [simp]: "loop cfg st [] = ([], Inr st)"
  by (simp add: loop_def)

lemma loop_Cons [simp]:
  "loop cfg st (w # ws) =
     (case body cfg st w of
        (es, Inl x) \<Rightarrow> (es, Inl x)
      | (es, Inr st') \<Rightarrow> (case loop cfg st' ws of (es', r) \<Rightarrow> (es @ es', r)))"
  by (simp add: loop_def body_def split: prod.splits sum.splits)

lemma banner_on_works: "banner_on works cfg = (banner cfg, Inr ())"
  by (simp add: banner_on_def banner_def py_print_def works_def)

lemma main_eq:
  "main cfg e ws = (case loop cfg (startup e) ws of (es, r) \<Rightarrow> (banner cfg @ es, r))"
  by (simp add: main_def main_on_def banner_on_works loop_def)

lemmas run_defs = main_eq startup_def banner_def example_config_def calm_def
  launches_def slept_def

lemmas run_on_defs = main_on_def banner_on_def startup_def example_config_def calm_def
  launches_def slept_def works_def ascii_only_def closed_pipe_def stutters_def


lemma body_exit1:
  "reaches_launch st w \<Longrightarrow> child w = Exited 1 \<Longrightarrow>
   body cfg st w =
     (notice st @ [the_launch cfg st, ChildExit 1, Print (ExitedWithCode 1)], Inr (bump st))"
  by (simp add: body_defs reaches_launch_def Let_def)

lemma body_crash:
  "reaches_launch st w \<Longrightarrow> child w = Exited c \<Longrightarrow> c \<noteq> 0 \<Longrightarrow> c \<noteq> 1 \<Longrightarrow>
   pause3 w = Slept \<Longrightarrow>
   body cfg st w =
     (notice st @ [the_launch cfg st, ChildExit c, Print (ExitedWithCode c), Print Waiting3,
        Sleep 3],
      Inr (bump st))"
  by (simp add: body_defs reaches_launch_def Let_def)

lemma body_crash_interrupted:
  "reaches_launch st w \<Longrightarrow> child w = Exited c \<Longrightarrow> c \<noteq> 0 \<Longrightarrow> c \<noteq> 1 \<Longrightarrow>
   pause3 w = SleepInterrupted \<Longrightarrow>
   body cfg st w =
     (notice st @ [the_launch cfg st, ChildExit c, Print (ExitedWithCode c), Print Waiting3,
        Interrupt, Print CtrlCDetected],
      Inl (Raised (SystemExit 0)))"
  by (simp add: body_defs reaches_launch_def Let_def)

lemma body_fault:
  "reaches_launch st w \<Longrightarrow> child w = Failed d \<Longrightarrow> pause10 w = Slept \<Longrightarrow>
   body cfg st w =
     (notice st @ [the_launch cfg st, LaunchFault d, Print (ErrorRunning d), Print Retrying10,
        Sleep 10],
      Inr (bump st))"
  by (simp add: body_defs reaches_launch_def Let_def)

lemma body_fault_interrupted:
  "reaches_launch st w \<Longrightarrow> child w = Failed d \<Longrightarrow> pause10 w = SleepInterrupted \<Longrightarrow>
   body cfg st w =
     (notice st @ [the_launch cfg st, LaunchFault d, Print (ErrorRunning d), Print Retrying10,
        Interrupt],
      Inl (Raised KeyboardInterrupt))"
  by (simp add: body_defs reaches_launch_def Let_def)

lemma body_run_interrupted:
  "reaches_launch st w \<Longrightarrow> child w = RunInterrupted \<Longrightarrow>
   body cfg st w =
     (notice st @ [the_launch cfg st, Interrupt, Print CtrlCDetected],
      Inl (Raised (SystemExit 0)))"
  by (simp add: body_defs reaches_launch_def Let_def)

lemma body_pause2_interrupted:
  "\<not> reaches_launch st w \<Longrightarrow>
   body cfg st w =
     ([Print RuleAbove, Print (Restarting (restart_count st + 1)), Print RuleBelow,
       Interrupt, Print CtrlCDetected],
      Inl (Raised (SystemExit 0)))"
  by (cases "pause2 w") (simp_all add: body_defs reaches_launch_def Let_def)

lemma body_next: "body cfg st w = (es, Inr st') \<Longrightarrow> st' = bump st"
  by (auto simp: body_defs Let_def split: if_splits sleep_answer.splits run_answer.splits)



section \<open>Runs\<close>

lemma loop_append:
  "loop cfg st (ws @ ws') =
     (case loop cfg st ws of
        (es, Inl x) \<Rightarrow> (es, Inl x)
      | (es, Inr st') \<Rightarrow> (case loop cfg st' ws' of (es', r) \<Rightarrow> (es @ es', r)))"
  by (induction ws arbitrary: st) (auto split: prod.splits sum.splits)

text \<open>While the loop runs, \<open>env\<close> is never assigned and the counter counts the passes.\<close>

lemma loop_next:
  "loop cfg st ws = (es, Inr st') \<Longrightarrow>
   env st' = env st \<and> restart_count st' = restart_count st + int (length ws)"
proof (induction ws arbitrary: st es)
  case Nil
  then show ?case by simp
next
  case (Cons w ws)
  obtain es1 r1 where b: "body cfg st w = (es1, r1)" by (cases "body cfg st w")
  with Cons.prems obtain st1 where r1: "r1 = Inr st1" by (cases r1) auto
  obtain es2 r2 where l: "loop cfg st1 ws = (es2, r2)" by (cases "loop cfg st1 ws")
  with Cons.prems b r1 have "r2 = Inr st'" by simp
  with l Cons.IH
  have "env st' = env st1 \<and> restart_count st' = restart_count st1 + int (length ws)"
    by blast
  moreover from b r1 have "st1 = bump st" by (simp add: body_next)
  ultimately show ?case by (simp add: bump_def)
qed

lemma main_append:
  "main cfg e ws = (tr, Inr st) \<Longrightarrow>
   main cfg e (ws @ ws') = (case loop cfg st ws' of (es', r) \<Rightarrow> (tr @ es', r))"
  by (auto simp: main_eq loop_append split: prod.splits sum.splits)

lemma main_state:
  "main cfg e ws = (tr, Inr st) \<Longrightarrow>
   env st = AList.update ''BOT_AUTO_RESTART'' ''1'' e \<and> restart_count st = int (length ws)"
  by (auto simp: main_eq startup_def split: prod.splits dest: loop_next)

lemma launches_banner: "launches (banner cfg) = 0"
  by (simp add: launches_def banner_def)

lemma launches_append: "launches (es @ es') = launches es + launches es'"
  by (simp add: launches_def)


section \<open>Exit status 0\<close>



section \<open>From one pass to the next launch\<close>

lemmas split_answers = if_splits sleep_answer.splits run_answer.splits

text \<open>An exit status or a fault is seen only in a pass that got as far as the launch.\<close>

lemma body_ChildExit:
  "ChildExit c \<in> set (fst (body cfg st w)) \<Longrightarrow> reaches_launch st w \<and> child w = Exited c"
  by (auto simp: body_defs reaches_launch_def Let_def split: split_answers)

lemma body_LaunchFault:
  "LaunchFault d \<in> set (fst (body cfg st w)) \<Longrightarrow> reaches_launch st w \<and> child w = Failed d"
  by (auto simp: body_defs reaches_launch_def Let_def split: split_answers)

lemma body_reaches:
  "reaches_launch st w \<Longrightarrow>
   \<exists>rest. fst (body cfg st w) = notice st @ the_launch cfg st # rest \<and> launches rest = 0"
  by (auto simp: body_defs reaches_launch_def launches_def Let_def split: split_answers)

lemma launches_notice: "launches (notice st) = 0"
  by (simp add: notice_def launches_def)

lemma is_launch_the_launch: "is_launch (the_launch cfg st)"
  by (simp add: the_launch_def)

lemma launches_the_launch: "launches (the_launch cfg st # es) = Suc (launches es)"
  by (simp add: the_launch_def launches_def)

text \<open>Every pass but the first of a run starts with the notice and the 2-unit pause.\<close>

lemma notice_later:
  "0 \<le> restart_count st \<Longrightarrow>
   notice (bump st) =
     [Print RuleAbove, Print (Restarting (restart_count st + 2)), Print RuleBelow, Sleep 2]"
  by (simp add: notice_def bump_def)

lemma reaches_launch_later:
  "0 \<le> restart_count st \<Longrightarrow> reaches_launch (bump st) w = (pause2 w = Slept)"
  by (simp add: reaches_launch_def bump_def)

lemma main_nil: "main cfg e [] = (banner cfg, Inr (startup e))"
  by (simp add: main_eq)

text \<open>
  A run so far (\<open>ws\<close>), a pass \<open>w\<close> that goes on, and a next pass \<open>w'\<close> whose pause is
  not interrupted: the next pass launches, once.
\<close>

lemma relaunch:
  assumes run: "main cfg e ws = (tr, Inr st)"
    and pass: "body cfg st w = (es, Inr st1)"
    and p2: "pause2 w' = Slept"
  shows "\<exists>post. fst (main cfg e (ws @ w # w' # ws')) =
           tr @ es @
             [Print RuleAbove, Print (Restarting (restart_count st + 2)), Print RuleBelow,
              Sleep 2] @
             the_launch cfg st1 # post"
    and "launches (fst (main cfg e (ws @ [w, w']))) = launches tr + launches es + 1"
proof -
  from run have c: "0 \<le> restart_count st" by (simp add: main_state)
  from pass have st1: "st1 = bump st" by (rule body_next)
  from c p2 st1 have r: "reaches_launch st1 w'" by (simp add: reaches_launch_later)
  from body_reaches [OF r, of cfg] obtain rest where
    rest: "fst (body cfg st1 w') = notice st1 @ the_launch cfg st1 # rest" "launches rest = 0"
    by blast
  from c st1 have n: "notice st1 =
      [Print RuleAbove, Print (Restarting (restart_count st + 2)), Print RuleBelow, Sleep 2]"
    by (simp add: notice_later)
  obtain r2 where b2: "body cfg st1 w' = (notice st1 @ the_launch cfg st1 # rest, r2)"
    using rest(1) by (cases "body cfg st1 w'") simp
  show "\<exists>post. fst (main cfg e (ws @ w # w' # ws')) =
           tr @ es @
             [Print RuleAbove, Print (Restarting (restart_count st + 2)), Print RuleBelow,
              Sleep 2] @
             the_launch cfg st1 # post"
    using main_append [OF run, of "w # w' # ws'"] pass b2 n
    by (auto split: prod.splits sum.splits)
  show "launches (fst (main cfg e (ws @ [w, w']))) = launches tr + launches es + 1"
    using main_append [OF run, of "[w, w']"] pass b2 rest(2)
    by (auto simp: launches_append launches_notice launches_the_launch
        split: prod.splits sum.splits)
qed

text \<open>The same when the pass \<open>w\<close> is one whose child returned a non-zero exit status.\<close>

lemma exit_then_relaunch:
  assumes run: "main cfg e ws = (tr, Inr st)"
    and exit: "ChildExit c \<in> set (fst (body cfg st w))"
    and nz: "c \<noteq> 0"
    and p3: "c \<noteq> 1 \<longrightarrow> pause3 w = Slept"
    and p2: "pause2 w' = Slept"
  shows "\<exists>post. fst (main cfg e (ws @ w # w' # ws')) =
           tr @ notice st @ the_launch cfg st # ChildExit c #
             (Print (ExitedWithCode c) # (if c \<noteq> 1 then [Print Waiting3, Sleep 3] else []) @
              [Print RuleAbove, Print (Restarting (restart_count st + 2)), Print RuleBelow,
               Sleep 2]) @
             the_launch cfg (bump st) # post"
    and "launches (fst (main cfg e (ws @ [w, w']))) = launches tr + 2"
proof -
  from body_ChildExit [OF exit] have r: "reaches_launch st w" and c: "child w = Exited c"
    by simp_all
  have b: "body cfg st w =
     (notice st @ the_launch cfg st # ChildExit c # Print (ExitedWithCode c) #
        (if c \<noteq> 1 then [Print Waiting3, Sleep 3] else []), Inr (bump st))"
  proof (cases "c = 1")
    case True
    with body_exit1 [OF r, of cfg] c show ?thesis by simp
  next
    case False
    with body_crash [OF r c nz, of cfg] p3 show ?thesis by simp
  qed
  from relaunch(1) [OF run b p2, of ws']
  show "\<exists>post. fst (main cfg e (ws @ w # w' # ws')) =
           tr @ notice st @ the_launch cfg st # ChildExit c #
             (Print (ExitedWithCode c) # (if c \<noteq> 1 then [Print Waiting3, Sleep 3] else []) @
              [Print RuleAbove, Print (Restarting (restart_count st + 2)), Print RuleBelow,
               Sleep 2]) @
             the_launch cfg (bump st) # post"
    by simp
  from relaunch(2) [OF run b p2]
  show "launches (fst (main cfg e (ws @ [w, w']))) = launches tr + 2"
    by (simp add: launches_append launches_notice launches_the_launch) (simp add: launches_def)
qed

section \<open>Exit status 1\<close>




section \<open>Any other exit status\<close>

text \<open>
  Claim C3, as stated: after an exit status other than 0 and 1, exactly one relaunch
  follows. It fails when an interrupt signal arrives during the pause that follows the
  exit: the supervisor prints the shutdown message and exits, and no relaunch follows.
  The run below starts in an empty environment; its first child returns 137, and the
  interrupt arrives during the 3-unit pause.
\<close>

theorem crash_pause_interrupted_counterexample:
  "main example_config [] [(calm (Exited 137))\<lparr>pause3 := SleepInterrupted\<rparr>, calm (Exited 0)] =
     (banner example_config @
      [Launch [''/usr/bin/python3'', ''/srv/bot/BOT/app_20.py''] ''/srv/bot''
         [(''BOT_AUTO_RESTART'', ''1'')],
       ChildExit 137,
       Print (ExitedWithCode 137), Print Waiting3, Interrupt, Print CtrlCDetected],
      Inl (Raised (SystemExit 0))) \<and>
   launches (fst (main example_config []
      [(calm (Exited 137))\<lparr>pause3 := SleepInterrupted\<rparr>, calm (Exited 0)])) = 1"
  by (simp add: run_defs body_defs Let_def)

text \<open>
  Claim C3, amended. In every run on a working standard output, when a launched child
  returns an exit status other than 0 and 1 and no interrupt cuts the two pauses that
  follow short, the supervisor is still running after that pass and exactly one relaunch
  follows; between reading the exit status and that launch the supervisor sleeps 3 and
  then 2 time units, at least 3. (\<open>ws\<close>, \<open>tr\<close>, \<open>w\<close>, \<open>w'\<close>, \<open>l0\<close>, \<open>gap\<close> and \<open>l\<close> as for
  exit status 1.)
\<close>

theorem crash_relaunch_after_delay:
  assumes "main cfg e ws = (tr, Inr st)"
    and "ChildExit c \<in> set (fst (body cfg st w))"
    and "c \<noteq> 0" and "c \<noteq> 1"
    and "pause3 w = Slept" and "pause2 w' = Slept"
  shows "(\<exists>st'. snd (main cfg e (ws @ [w])) = Inr st') \<and>
         (\<exists>before l0 gap l post.
           fst (main cfg e (ws @ w # w' # ws')) =
             tr @ before @ l0 # ChildExit c # gap @ l # post \<and>
           launches before = 0 \<and> is_launch l0 \<and> launches gap = 0 \<and> is_launch l \<and>
           sleeps gap = [3, 2] \<and> 3 \<le> slept gap \<and>
           launches (fst (main cfg e (ws @ [w, w']))) = launches tr + 2)"
proof
  from body_ChildExit [OF assms(2)] have r: "reaches_launch st w" and c: "child w = Exited c"
    by simp_all
  from main_append [OF assms(1), of "[w]"] body_crash [OF r c assms(3,4,5), of cfg]
  show "\<exists>st'. snd (main cfg e (ws @ [w])) = Inr st'" by simp
  let ?gap = "[Print (ExitedWithCode c), Print Waiting3, Sleep 3,
     Print RuleAbove, Print (Restarting (restart_count st + 2)), Print RuleBelow, Sleep 2]"
  from exit_then_relaunch(1) [OF assms(1,2,3) _ assms(6), of ws'] assms(4,5)
  obtain post where
    "fst (main cfg e (ws @ w # w' # ws')) =
       tr @ notice st @ the_launch cfg st # ChildExit c # ?gap @ the_launch cfg (bump st) # post"
    by auto
  moreover have "launches ?gap = 0" "sleeps ?gap = [3, 2]" "3 \<le> slept ?gap"
    by (simp_all add: launches_def slept_def)
  moreover from exit_then_relaunch(2) [OF assms(1,2,3) _ assms(6)] assms(5)
  have "launches (fst (main cfg e (ws @ [w, w']))) = launches tr + 2" by simp
  ultimately show "\<exists>before l0 gap l post.
           fst (main cfg e (ws @ w # w' # ws')) =
             tr @ before @ l0 # ChildExit c # gap @ l # post \<and>
           launches before = 0 \<and> is_launch l0 \<and> launches gap = 0 \<and> is_launch l \<and>
           sleeps gap = [3, 2] \<and> 3 \<le> slept gap \<and>
           launches (fst (main cfg e (ws @ [w, w']))) = launches tr + 2"
    using launches_notice is_launch_the_launch by blast
qed

theorem crash_relaunch_after_delay_witness:
  "main example_config [] [calm (Exited 1), calm (Failed ''no such directory'')] =
     (fst (main example_config [] [calm (Exited 1), calm (Failed ''no such directory'')]),
      Inr \<lparr>restart_count = 2, env = [(''BOT_AUTO_RESTART'', ''1'')]\<rparr>) \<and>
   ChildExit 137 \<in> set (fst (body example_config
       \<lparr>restart_count = 2, env = [(''BOT_AUTO_RESTART'', ''1'')]\<rparr> (calm (Exited 137)))) \<and>
   (137::int) \<noteq> 0 \<and> (137::int) \<noteq> 1 \<and>
   pause3 (calm (Exited 137)) = Slept \<and> pause2 (calm (Exited 0)) = Slept \<and>
   (\<exists>st'. snd (main example_config []
       ([calm (Exited 1), calm (Failed ''no such directory'')] @ [calm (Exited 137)])) =
     Inr st') \<and>
   (\<exists>before l0 gap l post.
      fst (main example_config []
         ([calm (Exited 1), calm (Failed ''no such directory'')] @
          calm (Exited 137) # calm (Exited 0) # [])) =
        fst (main example_config [] [calm (Exited 1), calm (Failed ''no such directory'')]) @
          before @ l0 # ChildExit 137 # gap @ l # post \<and>
      launches before = 0 \<and> is_launch l0 \<and> launches gap = 0 \<and> is_launch l \<and>
      sleeps gap = [3, 2] \<and> 3 \<le> slept gap \<and>
      launches (fst (main example_config []
         ([calm (Exited 1), calm (Failed ''no such directory'')] @
          [calm (Exited 137), calm (Exited 0)]))) =
        launches (fst (main example_config []
          [calm (Exited 1), calm (Failed ''no such directory'')])) + 2)"
proof -
  have 1: "main example_config [] [calm (Exited 1), calm (Failed ''no such directory'')] =
     (fst (main example_config [] [calm (Exited 1), calm (Failed ''no such directory'')]),
      Inr \<lparr>restart_count = 2, env = [(''BOT_AUTO_RESTART'', ''1'')]\<rparr>)"
    by (simp add: run_defs body_defs Let_def)
  have 2: "ChildExit 137 \<in> set (fst (body example_config
       \<lparr>restart_count = 2, env = [(''BOT_AUTO_RESTART'', ''1'')]\<rparr> (calm (Exited 137))))"
    by (simp add: body_defs calm_def Let_def)
  have 3: "(137::int) \<noteq> 0" "(137::int) \<noteq> 1" by simp_all
  have 4: "pause3 (calm (Exited 137)) = Slept" "pause2 (calm (Exited 0)) = Slept"
    by (simp_all add: calm_def)
  from crash_relaunch_after_delay [OF 1 2 3 4, of "[]"] 1 2 3 4 show ?thesis by blast
qed



section \<open>Interrupts\<close>

text \<open>
  A \<open>KeyboardInterrupt\<close> raised inside the \<open>try\<close> block, at whichever of its three
  blocking calls, is answered by the shutdown message and \<open>sys.exit(0)\<close>.
\<close>

lemma interrupt_inside_try:
  "try_block cfg st w = (st1, es, Inl KeyboardInterrupt) \<Longrightarrow>
   body cfg st w = (es @ [Print CtrlCDetected], Inl (Raised (SystemExit 0)))"
  by (simp add: body_def body_on_def try_block_def on_keyboard_interrupt_def py_print_def
      works_def sys_exit_def)

lemma interrupt_in_child_wait:
  "reaches_launch st w \<Longrightarrow> child w = RunInterrupted \<Longrightarrow>
   \<exists>es. body cfg st w = (es @ [Interrupt, Print CtrlCDetected], Inl (Raised (SystemExit 0)))"
  by (simp add: body_run_interrupted)

text \<open>
  Claim C4 says the same of every point of the execution, the 10-unit pause after a
  launch fault included. There the code does otherwise: \<open>time.sleep(10)\<close> stands in the
  \<open>except Exception\<close> handler, outside the \<open>try\<close> block, so a \<open>KeyboardInterrupt\<close>
  raised in it is caught by no handler; no shutdown message is printed and the process
  ends with the uncaught exception instead of \<open>SystemExit(0)\<close>. The run below starts in
  an empty environment; its first launch raises, and the interrupt arrives during the
  pause that follows.
\<close>

theorem interrupt_in_fault_pause_uncaught:
  "main example_config []
     [(calm (Failed ''no such directory''))\<lparr>pause10 := SleepInterrupted\<rparr>] =
     (banner example_config @
      [Launch [''/usr/bin/python3'', ''/srv/bot/BOT/app_20.py''] ''/srv/bot''
         [(''BOT_AUTO_RESTART'', ''1'')],
       LaunchFault ''no such directory'',
       Print (ErrorRunning ''no such directory''), Print Retrying10, Interrupt],
      Inl (Raised KeyboardInterrupt)) \<and>
   Print CtrlCDetected \<notin> set (fst (main example_config []
     [(calm (Failed ''no such directory''))\<lparr>pause10 := SleepInterrupted\<rparr>]))"
  by (simp add: run_defs body_defs Let_def)

section \<open>A standard output that may fail\<close>

text \<open>
  From here on \<open>print\<close> may raise: the lemmas are about \<open>body_on\<close>, \<open>loop_on\<close>
  and \<open>main_on\<close>. A \<open>print\<close> that fails inside the \<open>try\<close> block is caught by
  the handler of line 67, like a launch fault; one that fails in the banner or in a
  handler leaves the script.
\<close>

lemma andthen_cases:
  assumes "andthen m f = (es, r)"
  obtains (raised) x where "m = (es, Inl x)" "r = Inl x"
  | (went_on) es1 a es2 where "m = (es1, Inr a)" "f a = (es2, r)" "es = es1 @ es2"
proof (cases m)
  case (Pair es1 r1)
  show ?thesis
  proof (cases r1)
    case (Inl x)
    with Pair assms raised show ?thesis by simp
  next
    case (Inr a)
    with Pair assms went_on show ?thesis by (auto split: prod.splits)
  qed
qed

text \<open>The outcomes of each part of a pass.\<close>

lemma py_print_cases:
  "py_print out m = (es, r) \<Longrightarrow>
   (r = Inr () \<and> es = [Print m] \<and> out m = None) \<or>
   (\<exists>d. r = Inl (Exception d) \<and> es = [PrintFailed m d] \<and> out m = Some d)"
  by (auto simp: py_print_def split: option.splits)

lemma pause_between_restarts_cases:
  "pause_between_restarts out (bump st) w = (es, r) \<Longrightarrow>
   \<not> list_ex about_child es \<and>
   ((r = Inr () \<and> es = notice st \<and> reaches_launch st w) \<or>
    (r = Inl KeyboardInterrupt \<and> Interrupt \<in> set es \<and> pause2 w = SleepInterrupted) \<or>
    (\<exists>d m pre. r = Inl (Exception d) \<and> es = pre @ [PrintFailed m d] \<and> inside_try m))"
  by (auto simp: pause_between_restarts_def py_print_def time_sleep_def return_def notice_def
      bump_def reaches_launch_def split: if_splits option.splits sleep_answer.splits)

lemma after_exit_cases:
  "after_exit out w c = (es, r) \<Longrightarrow>
   \<not> list_ex about_child es \<and>
   ((r = Inr Break \<and> c = 0 \<and> es = [Print CleanExit]) \<or>
    (r = Inr Continue \<and> c \<noteq> 0) \<or>
    (r = Inl KeyboardInterrupt \<and> Interrupt \<in> set es \<and> pause3 w = SleepInterrupted) \<or>
    (\<exists>d m pre. r = Inl (Exception d) \<and> es = pre @ [PrintFailed m d] \<and> inside_try m))"
  by (auto simp: after_exit_def py_print_def time_sleep_def return_def
      split: if_splits option.splits sleep_answer.splits)

lemma on_keyboard_interrupt_cases:
  "on_keyboard_interrupt out = (es, r) \<Longrightarrow>
   (r = Inl (SystemExit 0) \<and> es = [Print CtrlCDetected]) \<or>
   (\<exists>d. r = Inl (Exception d) \<and> es = [PrintFailed CtrlCDetected d])"
  by (auto simp: on_keyboard_interrupt_def py_print_def sys_exit_def split: option.splits)

lemma on_exception_cases:
  "on_exception out e w = (es, r) \<Longrightarrow>
   \<not> list_ex about_child es \<and>
   ((r = Inr () \<and> es = [Print (ErrorRunning e), Print Retrying10, Sleep 10]) \<or>
    (r = Inl KeyboardInterrupt \<and> Interrupt \<in> set es \<and> pause10 w = SleepInterrupted) \<or>
    (\<exists>d m pre. r = Inl (Exception d) \<and> es = pre @ [PrintFailed m d] \<and> \<not> inside_try m \<and>
       (out (ErrorRunning e) = Some d \<or> out Retrying10 = Some d)))"
  by (auto simp: on_exception_def py_print_def time_sleep_def
      split: option.splits sleep_answer.splits)

lemma not_about_child:
  "\<not> list_ex about_child es \<Longrightarrow>
   LaunchFault d \<notin> set es \<and> ChildExit c \<notin> set es \<and> launches es = 0"
  by (induction es) (auto simp: launches_def elim: about_child.elims is_launch.elims)

lemma notice_not_about_child:
  "LaunchFault d \<notin> set (notice st) \<and> ChildExit c \<notin> set (notice st) \<and>
   Interrupt \<notin> set (notice st)"
  by (simp add: notice_def)

lemma try_block_on_cases:
  assumes "try_block_on out cfg st w = (st1, es, r)"
  obtains
    (before_launch) x where "st1 = bump st" "r = Inl x" "\<not> list_ex about_child es"
      "(x = KeyboardInterrupt \<and> Interrupt \<in> set es \<and> pause2 w = SleepInterrupted) \<or>
       (\<exists>d m pre. x = Exception d \<and> es = pre @ [PrintFailed m d] \<and> inside_try m)"
  | (launch_fault) d where "st1 = bump st" "reaches_launch st w" "child w = Failed d"
      "es = notice st @ [the_launch cfg st, LaunchFault d]" "r = Inl (Exception d)"
  | (run_interrupted) "st1 = bump st" "reaches_launch st w" "child w = RunInterrupted"
      "es = notice st @ [the_launch cfg st, Interrupt]" "r = Inl KeyboardInterrupt"
  | (child_exited) c es3 where "st1 = bump st" "reaches_launch st w" "child w = Exited c"
      "es = notice st @ [the_launch cfg st, ChildExit c] @ es3" "after_exit out w c = (es3, r)"
proof -
  from assms have st1: "st1 = bump st"
    and a: "andthen (pause_between_restarts out (bump st) w) (\<lambda>_.
              andthen (subprocess_run [sys_executable cfg, bot_script cfg] (script_dir cfg)
                 (env st) (child w)) (after_exit out w)) = (es, r)"
    by (auto simp: try_block_on_def Let_def bump_def)
  from a show ?thesis
  proof (cases rule: andthen_cases)
    case (raised x)
    from pause_between_restarts_cases [OF raised(1)] raised(2) st1 before_launch
    show ?thesis by auto
  next
    case (went_on es1 u es2)
    from pause_between_restarts_cases [OF went_on(1)]
    have n: "es1 = notice st" and rl: "reaches_launch st w" by auto
    from went_on(2) show ?thesis
    proof (cases rule: andthen_cases)
      case (raised x)
      show ?thesis
      proof (cases "child w")
        case (Exited c)
        with raised show ?thesis by (simp add: subprocess_run_def)
      next
        case (Failed d)
        with raised went_on(3) n rl st1 launch_fault [of d] show ?thesis
          by (auto simp: subprocess_run_def the_launch_def bump_def)
      next
        case RunInterrupted
        with raised went_on(3) n rl st1 run_interrupted show ?thesis
          by (auto simp: subprocess_run_def the_launch_def bump_def)
      qed
    next
      case inner: (went_on es2a c es3)
      from inner(1) have "child w = Exited c" "es2a = [the_launch cfg st, ChildExit c]"
        by (auto simp: subprocess_run_def the_launch_def bump_def split: run_answer.splits)
      with inner went_on(3) n rl st1 child_exited [of c es3] show ?thesis by simp
    qed
  qed
qed

lemma try_block_on_facts:
  assumes "try_block_on out cfg st w = (st1, es, r)"
  shows "st1 = bump st \<and>
    (r = Inr Break \<longrightarrow> ChildExit 0 \<in> set es \<and> child w = Exited 0) \<and>
    (r = Inl KeyboardInterrupt \<longrightarrow> Interrupt \<in> set es \<and> interrupted w) \<and>
    r \<noteq> Inl (SystemExit n) \<and>
    (LaunchFault d \<in> set es \<longrightarrow>
       es = notice st @ [the_launch cfg st, LaunchFault d] \<and> r = Inl (Exception d))"
  using assms
proof (cases rule: try_block_on_cases)
  case (before_launch x)
  then show ?thesis using not_about_child [of es d] by (auto simp: interrupted_def)
next
  case (launch_fault d')
  then show ?thesis using notice_not_about_child [of d st] by (auto simp: the_launch_def)
next
  case run_interrupted
  then show ?thesis using notice_not_about_child [of d st]
    by (auto simp: the_launch_def interrupted_def)
next
  case (child_exited c es3)
  from after_exit_cases [OF child_exited(5)] child_exited(1-4)
    not_about_child [of es3 d] notice_not_about_child [of d st]
  show ?thesis by (auto simp: the_launch_def interrupted_def)
qed

text \<open>One pass.\<close>

lemmas split_result = sum.splits exc.splits flow.splits prod.splits

lemma body_on_next: "body_on out cfg st w = (es, Inr st') \<Longrightarrow> st' = bump st"
proof -
  assume b: "body_on out cfg st w = (es, Inr st')"
  obtain st1 es0 r where t: "try_block_on out cfg st w = (st1, es0, r)"
    by (cases "try_block_on out cfg st w")
  from try_block_on_facts [OF t] have "st1 = bump st" by simp
  with b t show ?thesis by (auto simp: body_on_def split: split_result)
qed

lemma body_on_events:
  assumes t: "try_block_on out cfg st w = (st1, es0, r)"
  shows "\<exists>es'. fst (body_on out cfg st w) = es0 @ es' \<and> \<not> list_ex about_child es'"
proof (cases r)
  case (Inr f)
  with t show ?thesis by (cases f) (simp_all add: body_on_def)
next
  case (Inl x)
  show ?thesis
  proof (cases x)
    case KeyboardInterrupt
    obtain es' r' where h: "on_keyboard_interrupt out = (es', r')"
      by (cases "on_keyboard_interrupt out")
    from on_keyboard_interrupt_cases [OF h] have "\<not> list_ex about_child es'" by auto
    with t Inl KeyboardInterrupt h show ?thesis
      by (auto simp: body_on_def split: split_result)
  next
    case (Exception e)
    obtain es' r' where h: "on_exception out e w = (es', r')"
      by (cases "on_exception out e w")
    from on_exception_cases [OF h] have "\<not> list_ex about_child es'" by simp
    with t Inl Exception h show ?thesis
      by (auto simp: body_on_def split: split_result)
  next
    case (SystemExit n)
    with t Inl show ?thesis by (simp add: body_on_def)
  qed
qed

lemma body_on_fault:
  assumes f: "LaunchFault d \<in> set (fst (body_on out cfg st w))"
    and p: "out (ErrorRunning d) = None" "out Retrying10 = None"
    and s: "pause10 w = Slept"
  shows "body_on out cfg st w =
     (notice st @ [the_launch cfg st, LaunchFault d, Print (ErrorRunning d), Print Retrying10,
        Sleep 10],
      Inr (bump st))"
proof -
  obtain st1 es0 r where t: "try_block_on out cfg st w = (st1, es0, r)"
    by (cases "try_block_on out cfg st w")
  from body_on_events [OF t] obtain es' where
    "fst (body_on out cfg st w) = es0 @ es'" "\<not> list_ex about_child es'" by blast
  with f not_about_child [of es' d] have "LaunchFault d \<in> set es0" by auto
  with try_block_on_facts [OF t, of _ d] have
    st1: "st1 = bump st" and es0: "es0 = notice st @ [the_launch cfg st, LaunchFault d]"
    and r: "r = Inl (Exception d)" by simp_all
  obtain es' r' where h: "on_exception out d w = (es', r')" by (cases "on_exception out d w")
  from on_exception_cases [OF h] p s
  have "r' = Inr ()" "es' = [Print (ErrorRunning d), Print Retrying10, Sleep 10]" by auto
  with t st1 es0 r h show ?thesis by (simp add: body_on_def)
qed

lemma body_on_stops:
  assumes b: "body_on out cfg st w = (es, Inl x)"
  shows "(x = Finished \<and> ChildExit 0 \<in> set es) \<or>
         ((x = Raised (SystemExit 0) \<or> x = Raised KeyboardInterrupt) \<and> Interrupt \<in> set es) \<or>
         (\<exists>d m pre. x = Raised (Exception d) \<and> es = pre @ [PrintFailed m d] \<and> \<not> inside_try m)"
proof -
  obtain st1 es0 r where t: "try_block_on out cfg st w = (st1, es0, r)"
    by (cases "try_block_on out cfg st w")
  note facts = try_block_on_facts [OF t]
  show ?thesis
  proof (cases r)
    case (Inr f)
    with b t facts [of 0 "[]"] show ?thesis by (cases f) (auto simp: body_on_def)
  next
    case (Inl y)
    show ?thesis
    proof (cases y)
      case KeyboardInterrupt
      obtain es' r' where h: "on_keyboard_interrupt out = (es', r')"
        by (cases "on_keyboard_interrupt out")
      from facts [of 0 "[]"] Inl KeyboardInterrupt have i: "Interrupt \<in> set es0" by simp
      from on_keyboard_interrupt_cases [OF h] show ?thesis
      proof
        assume "r' = Inl (SystemExit 0) \<and> es' = [Print CtrlCDetected]"
        with b t Inl KeyboardInterrupt h i show ?thesis by (auto simp: body_on_def)
      next
        assume "\<exists>d. r' = Inl (Exception d) \<and> es' = [PrintFailed CtrlCDetected d]"
        then obtain d where "r' = Inl (Exception d)" "es' = [PrintFailed CtrlCDetected d]"
          by blast
        with b t Inl KeyboardInterrupt h
        have "x = Raised (Exception d)" "es = es0 @ [PrintFailed CtrlCDetected d]"
          by (auto simp: body_on_def)
        then show ?thesis by auto
      qed
    next
      case (Exception e)
      obtain es' r' where h: "on_exception out e w = (es', r')"
        by (cases "on_exception out e w")
      from b t Inl Exception h have r': "r' = Inl (case x of Raised z \<Rightarrow> z | Finished \<Rightarrow> KeyboardInterrupt)"
        and es: "es = es0 @ es'" and x: "x \<noteq> Finished"
        by (auto simp: body_on_def split: split_result)
      from on_exception_cases [OF h] r' x
      consider "r' = Inl KeyboardInterrupt" "Interrupt \<in> set es'"
        | d m pre where "r' = Inl (Exception d)" "es' = pre @ [PrintFailed m d]" "\<not> inside_try m"
        by auto
      then show ?thesis
      proof cases
        case 1
        with r' x es show ?thesis by (cases x) auto
      next
        case 2
        with r' x have "x = Raised (Exception d)" by (cases x) auto
        moreover from 2 es have "es = (es0 @ pre) @ [PrintFailed m d]" by simp
        ultimately show ?thesis using 2(3) by blast
      qed
    next
      case (SystemExit n)
      with Inl facts [of n "[]"] show ?thesis by simp
    qed
  qed
qed

lemma body_on_goes_on:
  assumes c: "child w \<noteq> Exited 0" and i: "\<not> interrupted w"
    and p: "\<forall>d. out (ErrorRunning d) = None" "out Retrying10 = None"
  shows "\<exists>es. body_on out cfg st w = (es, Inr (bump st))"
proof -
  obtain st1 es0 r where t: "try_block_on out cfg st w = (st1, es0, r)"
    by (cases "try_block_on out cfg st w")
  note facts = try_block_on_facts [OF t]
  from facts [of 0 "[]"] have st1: "st1 = bump st" by simp
  show ?thesis
  proof (cases r)
    case (Inr f)
    with t st1 c facts [of 0 "[]"] show ?thesis by (cases f) (auto simp: body_on_def)
  next
    case (Inl y)
    show ?thesis
    proof (cases y)
      case KeyboardInterrupt
      with Inl i facts [of 0 "[]"] show ?thesis by simp
    next
      case (Exception e)
      obtain es' r' where h: "on_exception out e w = (es', r')"
        by (cases "on_exception out e w")
      from on_exception_cases [OF h] p i have "r' = Inr ()"
        by (auto simp: interrupted_def)
      with t st1 Inl Exception h show ?thesis by (simp add: body_on_def)
    next
      case (SystemExit n)
      with Inl facts [of n "[]"] show ?thesis by simp
    qed
  qed
qed

lemma banner_on_cases:
  "banner_on out cfg = (es, r) \<Longrightarrow>
   (r = Inr () \<and> es = banner cfg) \<or>
   (\<exists>d m pre. r = Inl (Exception d) \<and> es = pre @ [PrintFailed m d] \<and> \<not> inside_try m)"
  by (auto simp: banner_on_def banner_def py_print_def split: option.splits)

lemma loop_on_append:
  "loop_on cfg st (ows @ ows') =
     (case loop_on cfg st ows of
        (es, Inl x) \<Rightarrow> (es, Inl x)
      | (es, Inr st') \<Rightarrow> (case loop_on cfg st' ows' of (es', r) \<Rightarrow> (es @ es', r)))"
  by (induction ows arbitrary: st) (auto split: prod.splits sum.splits)

lemma loop_on_next:
  "loop_on cfg st ows = (es, Inr st') \<Longrightarrow>
   env st' = env st \<and> restart_count st' = restart_count st + int (length ows)"
proof (induction ows arbitrary: st es)
  case Nil
  then show ?case by simp
next
  case (Cons ow ows)
  obtain out w where ow: "ow = (out, w)" by (cases ow)
  obtain es1 r1 where b: "body_on out cfg st w = (es1, r1)" by (cases "body_on out cfg st w")
  with Cons.prems ow obtain st1 where r1: "r1 = Inr st1" by (cases r1) auto
  obtain es2 r2 where l: "loop_on cfg st1 ows = (es2, r2)" by (cases "loop_on cfg st1 ows")
  with Cons.prems ow b r1 have "r2 = Inr st'" by simp
  with l Cons.IH
  have "env st' = env st1 \<and> restart_count st' = restart_count st1 + int (length ows)"
    by blast
  moreover from b r1 have "st1 = bump st" by (simp add: body_on_next)
  ultimately show ?case by (simp add: bump_def)
qed

lemma main_on_append:
  "main_on outb cfg e ows = (tr, Inr st) \<Longrightarrow>
   main_on outb cfg e (ows @ ows') = (case loop_on cfg st ows' of (es', r) \<Rightarrow> (tr @ es', r))"
  by (auto simp: main_on_def loop_on_append split: prod.splits sum.splits)

lemma main_on_state:
  "main_on outb cfg e ows = (tr, Inr st) \<Longrightarrow>
   env st = AList.update ''BOT_AUTO_RESTART'' ''1'' e \<and> restart_count st = int (length ows)"
  by (auto simp: main_on_def startup_def split: prod.splits sum.splits dest: loop_on_next)

lemma relaunch_on:
  assumes run: "main_on outb cfg e ows = (tr, Inr st)"
    and pass: "body_on out cfg st w = (es, Inr st1)"
    and p2: "pause2 w' = Slept"
  shows "\<exists>post. fst (main_on outb cfg e (ows @ (out, w) # (works, w') # ows')) =
           tr @ es @
             [Print RuleAbove, Print (Restarting (restart_count st + 2)), Print RuleBelow,
              Sleep 2] @
             the_launch cfg st1 # post"
proof -
  from run have c: "0 \<le> restart_count st" by (simp add: main_on_state)
  from pass have st1: "st1 = bump st" by (rule body_on_next)
  from c p2 st1 have r: "reaches_launch st1 w'" by (simp add: reaches_launch_later)
  from body_reaches [OF r, of cfg] obtain rest where
    rest: "fst (body cfg st1 w') = notice st1 @ the_launch cfg st1 # rest"
    by blast
  from c st1 have n: "notice st1 =
      [Print RuleAbove, Print (Restarting (restart_count st + 2)), Print RuleBelow, Sleep 2]"
    by (simp add: notice_later)
  obtain r2 where b2: "body_on works cfg st1 w' = (notice st1 @ the_launch cfg st1 # rest, r2)"
    using rest by (cases "body_on works cfg st1 w'") (simp add: body_def)
  show ?thesis
    using main_on_append [OF run, of "(out, w) # (works, w') # ows'"] pass b2 n
    by (auto split: prod.splits sum.splits)
qed

lemma loop_on_stops:
  "loop_on cfg st ows = (es, Inl x) \<Longrightarrow>
   (x = Finished \<and> ChildExit 0 \<in> set es) \<or>
   ((x = Raised (SystemExit 0) \<or> x = Raised KeyboardInterrupt) \<and> Interrupt \<in> set es) \<or>
   (\<exists>d m pre. x = Raised (Exception d) \<and> es = pre @ [PrintFailed m d] \<and> \<not> inside_try m)"
proof (induction ows arbitrary: st es)
  case Nil
  then show ?case by simp
next
  case (Cons ow ows)
  obtain out w where ow: "ow = (out, w)" by (cases ow)
  obtain es1 r where b: "body_on out cfg st w = (es1, r)" by (cases "body_on out cfg st w")
  show ?case
  proof (cases r)
    case (Inl y)
    with b ow Cons.prems have "es = es1" "x = y" by simp_all
    with b Inl body_on_stops [of out cfg st w es x] show ?thesis by simp
  next
    case (Inr st1)
    obtain es2 r2 where l: "loop_on cfg st1 ows = (es2, r2)" by (cases "loop_on cfg st1 ows")
    with b ow Inr Cons.prems have es: "es = es1 @ es2" and "r2 = Inl x" by simp_all
    with l Cons.IH [of st1 es2]
    consider "x = Finished" "ChildExit 0 \<in> set es2"
      | "x = Raised (SystemExit 0) \<or> x = Raised KeyboardInterrupt" "Interrupt \<in> set es2"
      | d m pre where "x = Raised (Exception d)" "es2 = pre @ [PrintFailed m d]" "\<not> inside_try m"
      by blast
    then show ?thesis
    proof cases
      case 1
      with es show ?thesis by simp
    next
      case 2
      with es show ?thesis by auto
    next
      case 3
      with es have "es = (es1 @ pre) @ [PrintFailed m d]" by simp
      with 3 show ?thesis by blast
    qed
  qed
qed

lemma loop_on_goes_on:
  "\<forall>(out, w)\<in>set ows. child w \<noteq> Exited 0 \<and> \<not> interrupted w \<and>
      (\<forall>d. out (ErrorRunning d) = None) \<and> out Retrying10 = None \<Longrightarrow>
   \<exists>es st'. loop_on cfg st ows = (es, Inr st')"
proof (induction ows arbitrary: st)
  case Nil
  show ?case by simp
next
  case (Cons ow ows)
  obtain out w where ow: "ow = (out, w)" by (cases ow)
  with Cons.prems obtain es1 where b: "body_on out cfg st w = (es1, Inr (bump st))"
    using body_on_goes_on [of w out cfg st] by auto
  from Cons obtain es2 st' where l: "loop_on cfg (bump st) ows = (es2, Inr st')"
    by fastforce
  from b l ow show ?case by simp
qed

section \<open>Launch faults\<close>

text \<open>
  Claim C5, as stated: whenever spawning or waiting on the child raises a fault (a
  nonexistent target path, say), the supervisor does not terminate; it prints the error
  message, waits at least 10 time units and launches again, and no such fault leaves
  the loop. Three runs, each started in an empty environment, show what the code does.
  With a target script that does not exist the interpreter is still spawned and
  \<open>subprocess.run\<close> returns its exit status 2: no fault is raised, no error message
  is printed and the relaunch comes after 3 + 2 time units. After a fault, an interrupt
  during the 10-unit wait ends the supervisor. After a fault, a \<open>print\<close> of the
  handler that raises (here on a standard output whose reader has gone) ends the
  supervisor at once, with that exception leaving the loop.
\<close>

theorem launch_fault_not_retried_counterexample:
  "main example_config [] [calm (Exited 2), calm (Exited 0)] =
     (banner example_config @
      [Launch [''/usr/bin/python3'', ''/srv/bot/BOT/app_20.py''] ''/srv/bot''
         [(''BOT_AUTO_RESTART'', ''1'')],
       ChildExit 2,
       Print (ExitedWithCode 2), Print Waiting3, Sleep 3,
       Print RuleAbove, Print (Restarting 2), Print RuleBelow, Sleep 2,
       Launch [''/usr/bin/python3'', ''/srv/bot/BOT/app_20.py''] ''/srv/bot''
         [(''BOT_AUTO_RESTART'', ''1'')],
       ChildExit 0, Print CleanExit],
      Inl Finished) \<and>
   main example_config []
     [(calm (Failed ''no such directory''))\<lparr>pause10 := SleepInterrupted\<rparr>, calm (Exited 0)] =
     (banner example_config @
      [Launch [''/usr/bin/python3'', ''/srv/bot/BOT/app_20.py''] ''/srv/bot''
         [(''BOT_AUTO_RESTART'', ''1'')],
       LaunchFault ''no such directory'',
       Print (ErrorRunning ''no such directory''), Print Retrying10, Interrupt],
      Inl (Raised KeyboardInterrupt)) \<and>
   main_on works example_config []
     [(closed_pipe, calm (Failed ''no such directory'')), (works, calm (Exited 0))] =
     (banner example_config @
      [Launch [''/usr/bin/python3'', ''/srv/bot/BOT/app_20.py''] ''/srv/bot''
         [(''BOT_AUTO_RESTART'', ''1'')],
       LaunchFault ''no such directory'',
       PrintFailed (ErrorRunning ''no such directory'') ''Broken pipe''],
      Inl (Raised (Exception ''Broken pipe'')))"
  by (simp add: run_defs run_on_defs body_defs banner_def Let_def)

text \<open>
  Claim C5, amended. In every run, when \<open>subprocess.run\<close> raises a fault with
  description \<open>d\<close> (a missing target script does not make it raise), the two prints
  of the handler succeed and no interrupt cuts the pauses that follow short: the
  supervisor is still running after that pass; it has printed the error message with
  \<open>d\<close>; it sleeps 10 and then 2 time units, at least 10; and the next pass, on a working
  standard output, launches again. A launch fault never leaves the loop: in every run
  that ends with an \<open>Exception\<close>, the last event is a \<open>print\<close> of the banner or of a
  handler that raised it.

  Here \<open>ows\<close> are the passes so far, on whatever standard outputs, \<open>tr\<close> their trace,
  \<open>(out, w)\<close> the pass whose launch raises and \<open>w'\<close> the pass after it.
\<close>

theorem launch_fault_is_retried:
  assumes "main_on outb cfg e ows = (tr, Inr st)"
    and "LaunchFault d \<in> set (fst (body_on out cfg st w))"
    and "out (ErrorRunning d) = None" and "out Retrying10 = None"
    and "pause10 w = Slept" and "pause2 w' = Slept"
  shows "(\<exists>st'. snd (main_on outb cfg e (ows @ [(out, w)])) = Inr st') \<and>
         (\<exists>before l0 gap l post.
            fst (main_on outb cfg e (ows @ (out, w) # (works, w') # ows')) =
              tr @ before @ l0 # LaunchFault d # Print (ErrorRunning d) # gap @ l # post \<and>
            launches before = 0 \<and> is_launch l0 \<and> launches gap = 0 \<and> is_launch l \<and>
            sleeps gap = [10, 2] \<and> 10 \<le> slept gap) \<and>
         (\<forall>out1 ows1 d1. snd (main_on out1 cfg e ows1) = Inl (Raised (Exception d1)) \<longrightarrow>
            (\<exists>m pre. fst (main_on out1 cfg e ows1) = pre @ [PrintFailed m d1] \<and>
               \<not> inside_try m))"
proof (intro conjI allI impI)
  note b = body_on_fault [OF assms(2,3,4,5)]
  from main_on_append [OF assms(1), of "[(out, w)]"] b
  show "\<exists>st'. snd (main_on outb cfg e (ows @ [(out, w)])) = Inr st'" by simp
  let ?gap = "[Print Retrying10, Sleep 10,
     Print RuleAbove, Print (Restarting (restart_count st + 2)), Print RuleBelow, Sleep 2]"
  from relaunch_on [OF assms(1) b assms(6), of ows'] obtain post where
    "fst (main_on outb cfg e (ows @ (out, w) # (works, w') # ows')) =
       tr @ notice st @ the_launch cfg st # LaunchFault d # Print (ErrorRunning d) #
         ?gap @ the_launch cfg (bump st) # post"
    by auto
  moreover have "launches ?gap = 0" "sleeps ?gap = [10, 2]" "10 \<le> slept ?gap"
    by (simp_all add: launches_def slept_def)
  ultimately show "\<exists>before l0 gap l post.
            fst (main_on outb cfg e (ows @ (out, w) # (works, w') # ows')) =
              tr @ before @ l0 # LaunchFault d # Print (ErrorRunning d) # gap @ l # post \<and>
            launches before = 0 \<and> is_launch l0 \<and> launches gap = 0 \<and> is_launch l \<and>
            sleeps gap = [10, 2] \<and> 10 \<le> slept gap"
    using launches_notice is_launch_the_launch by blast
next
  fix out1 ows1 d1
  assume a: "snd (main_on out1 cfg e ows1) = Inl (Raised (Exception d1))"
  obtain es0 r0 where bn: "banner_on out1 cfg = (es0, r0)" by (cases "banner_on out1 cfg")
  show "\<exists>m pre. fst (main_on out1 cfg e ows1) = pre @ [PrintFailed m d1] \<and> \<not> inside_try m"
  proof (cases r0)
    case (Inl x)
    with a bn have "x = Exception d1" "fst (main_on out1 cfg e ows1) = es0"
      by (simp_all add: main_on_def)
    with banner_on_cases [OF bn] Inl show ?thesis by auto
  next
    case (Inr u)
    obtain es r where l: "loop_on cfg (startup e) ows1 = (es, r)"
      by (cases "loop_on cfg (startup e) ows1")
    with a bn Inr have r: "r = Inl (Raised (Exception d1))"
      and tr: "fst (main_on out1 cfg e ows1) = es0 @ es"
      by (simp_all add: main_on_def)
    from loop_on_stops [of cfg "startup e" ows1 es "Raised (Exception d1)"] l r
    obtain m pre where "es = pre @ [PrintFailed m d1]" "\<not> inside_try m" by auto
    with tr have "fst (main_on out1 cfg e ows1) = (es0 @ pre) @ [PrintFailed m d1]" by simp
    with \<open>\<not> inside_try m\<close> show ?thesis by blast
  qed
qed

theorem launch_fault_is_retried_witness:
  "main_on works example_config [] [(stutters, calm (Exited 1))] =
     (fst (main_on works example_config [] [(stutters, calm (Exited 1))]),
      Inr \<lparr>restart_count = 1, env = [(''BOT_AUTO_RESTART'', ''1'')]\<rparr>) \<and>
   LaunchFault ''no such directory'' \<in>
     set (fst (body_on works example_config
       \<lparr>restart_count = 1, env = [(''BOT_AUTO_RESTART'', ''1'')]\<rparr>
       (calm (Failed ''no such directory'')))) \<and>
   works (ErrorRunning ''no such directory'') = None \<and> works Retrying10 = None \<and>
   pause10 (calm (Failed ''no such directory'')) = Slept \<and>
   pause2 (calm (Exited 0)) = Slept \<and>
   (\<exists>st'. snd (main_on works example_config []
       ([(stutters, calm (Exited 1))] @ [(works, calm (Failed ''no such directory''))])) =
     Inr st') \<and>
   (\<exists>before l0 gap l post.
      fst (main_on works example_config []
         ([(stutters, calm (Exited 1))] @
          (works, calm (Failed ''no such directory'')) # (works, calm (Exited 0)) # [])) =
        fst (main_on works example_config [] [(stutters, calm (Exited 1))]) @
          before @ l0 # LaunchFault ''no such directory'' #
          Print (ErrorRunning ''no such directory'') # gap @ l # post \<and>
      launches before = 0 \<and> is_launch l0 \<and> launches gap = 0 \<and> is_launch l \<and>
      sleeps gap = [10, 2] \<and> 10 \<le> slept gap) \<and>
   snd (main_on works example_config [] [(closed_pipe, calm (Failed ''no such directory''))]) =
     Inl (Raised (Exception ''Broken pipe'')) \<and>
   (\<exists>m pre. fst (main_on works example_config []
        [(closed_pipe, calm (Failed ''no such directory''))]) =
      pre @ [PrintFailed m ''Broken pipe''] \<and> \<not> inside_try m)"
proof -
  have 1: "main_on works example_config [] [(stutters, calm (Exited 1))] =
     (fst (main_on works example_config [] [(stutters, calm (Exited 1))]),
      Inr \<lparr>restart_count = 1, env = [(''BOT_AUTO_RESTART'', ''1'')]\<rparr>)"
    by (simp add: run_on_defs body_on_defs Let_def)
  have 2: "LaunchFault ''no such directory'' \<in>
     set (fst (body_on works example_config
       \<lparr>restart_count = 1, env = [(''BOT_AUTO_RESTART'', ''1'')]\<rparr>
       (calm (Failed ''no such directory''))))"
    by (simp add: body_on_defs works_def calm_def Let_def)
  have 3: "works (ErrorRunning ''no such directory'') = None" "works Retrying10 = None"
    by (simp_all add: works_def)
  have 4: "pause10 (calm (Failed ''no such directory'')) = Slept"
    "pause2 (calm (Exited 0)) = Slept"
    by (simp_all add: calm_def)
  have 5: "snd (main_on works example_config []
      [(closed_pipe, calm (Failed ''no such directory''))]) =
     Inl (Raised (Exception ''Broken pipe''))"
    by (simp add: run_on_defs body_on_defs Let_def)
  note inst = launch_fault_is_retried [OF 1 2 3 4, of "[]"]
  from inst 5 have 6: "\<exists>m pre. fst (main_on works example_config []
        [(closed_pipe, calm (Failed ''no such directory''))]) =
      pre @ [PrintFailed m ''Broken pipe''] \<and> \<not> inside_try m"
    by blast
  from inst 1 2 3 4 5 6 show ?thesis by blast
qed

section \<open>How the supervisor stops\<close>

lemma body_goes_on:
  "child w \<noteq> Exited 0 \<Longrightarrow> \<not> interrupted w \<Longrightarrow>
   \<exists>es. body cfg st w = (es, Inr (bump st)) \<and> launches es = 1"
  by (cases "child w"; cases "pause2 w"; cases "pause3 w"; cases "pause10 w")
     (auto simp: body_defs interrupted_def launches_def Let_def)

lemma loop_goes_on:
  "\<forall>w\<in>set ws. child w \<noteq> Exited 0 \<and> \<not> interrupted w \<Longrightarrow>
   \<exists>es st'. loop cfg st ws = (es, Inr st') \<and> launches es = length ws"
proof (induction ws arbitrary: st)
  case Nil
  show ?case by (simp add: launches_def)
next
  case (Cons w ws)
  then obtain es1 where b: "body cfg st w = (es1, Inr (bump st))" "launches es1 = 1"
    using body_goes_on [of w cfg st] by auto
  from Cons obtain es2 st' where
    l: "loop cfg (bump st) ws = (es2, Inr st')" "launches es2 = length ws"
    by fastforce
  from b l show ?case by (simp add: launches_append)
qed

text \<open>
  Claim C6, as stated: the supervisor terminates only after a child has returned exit
  status 0 or after an interrupt signal. It fails: on a standard output that cannot
  encode the emoji of line 16, the second \<open>print\<close> of the banner raises and the
  script ends there, before any launch and without any interrupt.
\<close>

theorem banner_print_stops_counterexample:
  "main_on ascii_only example_config [] [(ascii_only, calm (Exited 1))] =
     ([Print Rule, PrintFailed Title ''UnicodeEncodeError''],
      Inl (Raised (Exception ''UnicodeEncodeError''))) \<and>
   ChildExit 0 \<notin> set (fst (main_on ascii_only example_config []
      [(ascii_only, calm (Exited 1))])) \<and>
   Interrupt \<notin> set (fst (main_on ascii_only example_config []
      [(ascii_only, calm (Exited 1))]))"
  by (simp add: run_on_defs body_on_defs Let_def)

text \<open>
  Claim C6, amended. A run that has ended has ended in one of three ways: finished,
  after a child returned exit status 0; by \<open>SystemExit(0)\<close> or an uncaught
  \<open>KeyboardInterrupt\<close>, after an interrupt; or by an \<open>Exception\<close> raised by a
  \<open>print\<close> of the banner or of a handler, which is then the last event. When the
  banner is printed, no child returns 0, no interrupt arrives and the two prints of the
  \<open>except Exception\<close> handler succeed, the supervisor is still running after any
  number of passes, whatever the exit statuses, the launch faults and the prints inside
  the \<open>try\<close> block; on a working standard output it has launched once in each pass.
\<close>

theorem three_ways_to_stop:
  "(\<forall>x. snd (main_on outb cfg e ows) = Inl x \<longrightarrow>
      (x = Finished \<and> ChildExit 0 \<in> set (fst (main_on outb cfg e ows))) \<or>
      ((x = Raised (SystemExit 0) \<or> x = Raised KeyboardInterrupt) \<and>
       Interrupt \<in> set (fst (main_on outb cfg e ows))) \<or>
      (\<exists>d m pre. x = Raised (Exception d) \<and>
         fst (main_on outb cfg e ows) = pre @ [PrintFailed m d] \<and> \<not> inside_try m)) \<and>
   (snd (banner_on outb cfg) = Inr () \<and>
    (\<forall>(out, w)\<in>set ows. child w \<noteq> Exited 0 \<and> \<not> interrupted w \<and>
       (\<forall>d. out (ErrorRunning d) = None) \<and> out Retrying10 = None) \<longrightarrow>
      (\<exists>st. snd (main_on outb cfg e ows) = Inr st \<and> restart_count st = int (length ows))) \<and>
   ((\<forall>w\<in>set ws. child w \<noteq> Exited 0 \<and> \<not> interrupted w) \<longrightarrow>
      (\<exists>st. snd (main cfg e ws) = Inr st \<and> restart_count st = int (length ws)) \<and>
      launches (fst (main cfg e ws)) = length ws)"
proof (intro conjI allI impI)
  fix x
  assume a: "snd (main_on outb cfg e ows) = Inl x"
  obtain es0 r0 where bn: "banner_on outb cfg = (es0, r0)" by (cases "banner_on outb cfg")
  show "(x = Finished \<and> ChildExit 0 \<in> set (fst (main_on outb cfg e ows))) \<or>
      ((x = Raised (SystemExit 0) \<or> x = Raised KeyboardInterrupt) \<and>
       Interrupt \<in> set (fst (main_on outb cfg e ows))) \<or>
      (\<exists>d m pre. x = Raised (Exception d) \<and>
         fst (main_on outb cfg e ows) = pre @ [PrintFailed m d] \<and> \<not> inside_try m)"
  proof (cases r0)
    case (Inl y)
    with a bn have "x = Raised y" "fst (main_on outb cfg e ows) = es0"
      by (simp_all add: main_on_def)
    with banner_on_cases [OF bn] Inl show ?thesis by auto
  next
    case (Inr u)
    obtain es r where l: "loop_on cfg (startup e) ows = (es, r)"
      by (cases "loop_on cfg (startup e) ows")
    with a bn Inr have r: "r = Inl x" and tr: "fst (main_on outb cfg e ows) = es0 @ es"
      by (simp_all add: main_on_def)
    from loop_on_stops [of cfg "startup e" ows es x] l r
    consider "x = Finished" "ChildExit 0 \<in> set es"
      | "x = Raised (SystemExit 0) \<or> x = Raised KeyboardInterrupt" "Interrupt \<in> set es"
      | d m pre where "x = Raised (Exception d)" "es = pre @ [PrintFailed m d]" "\<not> inside_try m"
      by blast
    then show ?thesis
    proof cases
      case 1
      with tr show ?thesis by simp
    next
      case 2
      with tr show ?thesis by auto
    next
      case 3
      with tr have "fst (main_on outb cfg e ows) = (es0 @ pre) @ [PrintFailed m d]" by simp
      with 3 show ?thesis by blast
    qed
  qed
next
  assume h: "snd (banner_on outb cfg) = Inr () \<and>
    (\<forall>(out, w)\<in>set ows. child w \<noteq> Exited 0 \<and> \<not> interrupted w \<and>
       (\<forall>d. out (ErrorRunning d) = None) \<and> out Retrying10 = None)"
  then obtain es0 where bn: "banner_on outb cfg = (es0, Inr ())"
    by (cases "banner_on outb cfg") auto
  from h loop_on_goes_on [of ows cfg "startup e"] obtain es st' where
    l: "loop_on cfg (startup e) ows = (es, Inr st')" by blast
  with bn have m: "main_on outb cfg e ows = (es0 @ es, Inr st')" by (simp add: main_on_def)
  from main_on_state [OF m] m
  show "\<exists>st. snd (main_on outb cfg e ows) = Inr st \<and> restart_count st = int (length ows)"
    by simp
next
  assume "\<forall>w\<in>set ws. child w \<noteq> Exited 0 \<and> \<not> interrupted w"
  from loop_goes_on [OF this, of cfg "startup e"] obtain es st' where
    l: "loop cfg (startup e) ws = (es, Inr st')" "launches es = length ws" by blast
  then have m: "main cfg e ws = (banner cfg @ es, Inr st')" by (simp add: main_eq)
  from main_state [OF m] m
  show "\<exists>st. snd (main cfg e ws) = Inr st \<and> restart_count st = int (length ws)" by simp
  from m l show "launches (fst (main cfg e ws)) = length ws"
    by (simp add: launches_append launches_banner)
qed

theorem three_ways_to_stop_witness:
  "snd (main_on works example_config [] [(works, calm (Exited 0))]) = Inl Finished \<and>
   ChildExit 0 \<in> set (fst (main_on works example_config [] [(works, calm (Exited 0))])) \<and>
   snd (main_on works example_config []
      [(works, (calm (Exited 1))\<lparr>pause2 := SleepInterrupted\<rparr>),
       (works, (calm (Exited 1))\<lparr>pause2 := SleepInterrupted\<rparr>)]) =
     Inl (Raised (SystemExit 0)) \<and>
   Interrupt \<in> set (fst (main_on works example_config []
      [(works, (calm (Exited 1))\<lparr>pause2 := SleepInterrupted\<rparr>),
       (works, (calm (Exited 1))\<lparr>pause2 := SleepInterrupted\<rparr>)])) \<and>
   snd (banner_on works example_config) = Inr () \<and>
   (child (calm (Exited 137)) \<noteq> Exited 0 \<and> \<not> interrupted (calm (Exited 137)) \<and>
    stutters (ErrorRunning ''Interrupted system call'') = None \<and>
    stutters Retrying10 = None) \<and>
   (child (calm (Failed ''no such directory'')) \<noteq> Exited 0 \<and>
    \<not> interrupted (calm (Failed ''no such directory'')) \<and>
    works (ErrorRunning ''no such directory'') = None \<and> works Retrying10 = None) \<and>
   (\<exists>st. snd (main_on works example_config []
        [(stutters, calm (Exited 137)), (works, calm (Failed ''no such directory''))]) =
      Inr st \<and> restart_count st = 2) \<and>
   (child (calm (Exited 1)) \<noteq> Exited 0 \<and> \<not> interrupted (calm (Exited 1))) \<and>
   (\<exists>st. snd (main example_config [] [calm (Exited 1), calm (Exited 1), calm (Exited 1)]) =
      Inr st \<and> restart_count st = 3) \<and>
   launches (fst (main example_config [] [calm (Exited 1), calm (Exited 1), calm (Exited 1)])) =
     3"
proof -
  have 1: "snd (main_on works example_config [] [(works, calm (Exited 0))]) = Inl Finished"
    "snd (main_on works example_config []
      [(works, (calm (Exited 1))\<lparr>pause2 := SleepInterrupted\<rparr>),
       (works, (calm (Exited 1))\<lparr>pause2 := SleepInterrupted\<rparr>)]) =
     Inl (Raised (SystemExit 0))"
    by (simp_all add: run_on_defs body_on_defs Let_def)
  have 2: "snd (banner_on works example_config) = Inr ()"
    by (simp add: banner_on_works)
  have 3: "\<forall>(out, w)\<in>set [(stutters, calm (Exited 137)),
        (works, calm (Failed ''no such directory''))].
      child w \<noteq> Exited 0 \<and> \<not> interrupted w \<and>
      (\<forall>d. out (ErrorRunning d) = None) \<and> out Retrying10 = None"
    by (simp add: calm_def interrupted_def stutters_def works_def)
  have 4: "\<forall>w\<in>set [calm (Exited 1), calm (Exited 1), calm (Exited 1)].
      child w \<noteq> Exited 0 \<and> \<not> interrupted w"
    by (simp add: calm_def interrupted_def)
  note a = three_ways_to_stop [where outb = works and cfg = example_config and e = "[]" and
      ows = "[(works, calm (Exited 0))]"]
  note b = three_ways_to_stop [where outb = works and cfg = example_config and e = "[]" and
      ows = "[(works, (calm (Exited 1))\<lparr>pause2 := SleepInterrupted\<rparr>),
        (works, (calm (Exited 1))\<lparr>pause2 := SleepInterrupted\<rparr>)]"]
  note c = three_ways_to_stop [where outb = works and cfg = example_config and e = "[]" and
      ows = "[(stutters, calm (Exited 137)), (works, calm (Failed ''no such directory''))]" and
      ws = "[calm (Exited 1), calm (Exited 1), calm (Exited 1)]"]
  from a 1(1) have 5: "ChildExit 0 \<in> set (fst (main_on works example_config []
      [(works, calm (Exited 0))]))" by auto
  from b 1(2) have 6: "Interrupt \<in> set (fst (main_on works example_config []
      [(works, (calm (Exited 1))\<lparr>pause2 := SleepInterrupted\<rparr>),
       (works, (calm (Exited 1))\<lparr>pause2 := SleepInterrupted\<rparr>)]))" by auto
  from c 2 3 have 7: "\<exists>st. snd (main_on works example_config []
        [(stutters, calm (Exited 137)), (works, calm (Failed ''no such directory''))]) =
      Inr st \<and> restart_count st = 2" by simp
  from c 4 have 8: "(\<exists>st. snd (main example_config []
        [calm (Exited 1), calm (Exited 1), calm (Exited 1)]) = Inr st \<and>
      restart_count st = 3) \<and>
    launches (fst (main example_config [] [calm (Exited 1), calm (Exited 1), calm (Exited 1)])) =
      3" by simp
  from 3 4 have 9:
    "child (calm (Exited 137)) \<noteq> Exited 0 \<and> \<not> interrupted (calm (Exited 137)) \<and>
     stutters (ErrorRunning ''Interrupted system call'') = None \<and>
     stutters Retrying10 = None"
    "child (calm (Failed ''no such directory'')) \<noteq> Exited 0 \<and>
     \<not> interrupted (calm (Failed ''no such directory'')) \<and>
     works (ErrorRunning ''no such directory'') = None \<and> works Retrying10 = None"
    "child (calm (Exited 1)) \<noteq> Exited 0 \<and> \<not> interrupted (calm (Exited 1))"
    by simp_all
  from 1 2 5 6 7 8 9 show ?thesis by blast
qed

section \<open>The environment of the child\<close>

lemma launch_envs_append: "launch_envs (es @ es') = launch_envs es @ launch_envs es'"
  by (induction es rule: launch_envs.induct) simp_all

lemma launch_envs_body: "set (launch_envs (fst (body cfg st w))) \<subseteq> {env st}"
  by (auto simp: body_defs Let_def split: split_answers)

lemma launch_envs_loop: "set (launch_envs (fst (loop cfg st ws))) \<subseteq> {env st}"
proof (induction ws arbitrary: st)
  case Nil
  show ?case by simp
next
  case (Cons w ws)
  obtain es r where b: "body cfg st w = (es, r)" by (cases "body cfg st w")
  with launch_envs_body [of cfg st w] have es: "set (launch_envs es) \<subseteq> {env st}" by simp
  show ?case
  proof (cases r)
    case (Inl x)
    with b es show ?thesis by simp
  next
    case (Inr st1)
    with b have "st1 = bump st" by (simp add: body_next)
    then have "env st1 = env st" by (simp add: bump_def)
    with Cons.IH [of st1] have "set (launch_envs (fst (loop cfg st1 ws))) \<subseteq> {env st}" by simp
    with b Inr es show ?thesis by (auto simp: launch_envs_append split: prod.splits)
  qed
qed

lemma launch_envs_main:
  "set (launch_envs (fst (main cfg e ws))) \<subseteq> {AList.update ''BOT_AUTO_RESTART'' ''1'' e}"
proof -
  have "launch_envs (banner cfg) = []" by (simp add: banner_def)
  with launch_envs_loop [of cfg "startup e" ws] show ?thesis
    by (auto simp: main_eq launch_envs_append startup_def split: prod.splits)
qed

lemma body_live_environ: "body cfg st (w\<lparr>live_environ := x\<rparr>) = body cfg st w"
  by (simp add: body_def body_on_def try_block_on_def pause_between_restarts_def
      after_exit_def on_exception_def cong: if_cong)

lemma loop_live_environ:
  "loop cfg st (map (\<lambda>w. w\<lparr>live_environ := f w\<rparr>) ws) = loop cfg st ws"
  by (induction ws arbitrary: st) (simp_all add: body_live_environ split: prod.splits sum.splits)

text \<open>
  Claim C7, as stated: the overlay handed to each launch is recomputed from the
  supervisor's environment as it stands at that launch, so that a change of the
  environment between two passes shows in the next launch. It fails: \<open>env\<close> is computed
  once, on lines 28-29, before the loop. The run below starts in an empty environment;
  its first child returns 1; by the second pass the environment has gained \<open>TZ\<close>; the
  second child is handed the same overlay as the first.
\<close>

theorem overlay_not_recomputed_counterexample:
  "launch_envs (fst (main example_config []
      [calm (Exited 1), (calm (Exited 0))\<lparr>live_environ := [(''TZ'', ''UTC'')]\<rparr>])) =
     [[(''BOT_AUTO_RESTART'', ''1'')], [(''BOT_AUTO_RESTART'', ''1'')]] \<and>
   map spec_overlay [calm (Exited 1), (calm (Exited 0))\<lparr>live_environ := [(''TZ'', ''UTC'')]\<rparr>] =
     [[(''BOT_AUTO_RESTART'', ''1'')], [(''TZ'', ''UTC''), (''BOT_AUTO_RESTART'', ''1'')]]"
  by (simp add: run_defs body_defs spec_overlay_def Let_def)

text \<open>
  Claim C7, amended. The overlay is computed once, at startup, from the supervisor's
  environment at that time plus the marker key. Every launch of every run is handed that
  overlay; the variable holding it has the same value as long as the loop runs; and
  whatever becomes of the supervisor's environment between passes changes nothing in
  the run.
\<close>

theorem overlay_computed_once:
  "(\<forall>ev\<in>set (launch_envs (fst (main cfg e ws))).
      ev = AList.update ''BOT_AUTO_RESTART'' ''1'' e) \<and>
   (\<forall>tr st. main cfg e ws = (tr, Inr st) \<longrightarrow>
      env st = AList.update ''BOT_AUTO_RESTART'' ''1'' e) \<and>
   main cfg e (map (\<lambda>w. w\<lparr>live_environ := f w\<rparr>) ws) = main cfg e ws"
proof (intro conjI allI impI ballI)
  fix ev
  assume "ev \<in> set (launch_envs (fst (main cfg e ws)))"
  with launch_envs_main [of cfg e ws] show "ev = AList.update ''BOT_AUTO_RESTART'' ''1'' e"
    by auto
next
  fix tr st
  assume "main cfg e ws = (tr, Inr st)"
  then show "env st = AList.update ''BOT_AUTO_RESTART'' ''1'' e" by (simp add: main_state)
next
  show "main cfg e (map (\<lambda>w. w\<lparr>live_environ := f w\<rparr>) ws) = main cfg e ws"
    by (simp add: main_eq loop_live_environ)
qed

theorem overlay_computed_once_witness:
  "[(''BOT_AUTO_RESTART'', ''1'')] \<in> set (launch_envs (fst (main example_config []
      [calm (Exited 1), (calm (Exited 0))\<lparr>live_environ := [(''TZ'', ''UTC'')]\<rparr>]))) \<and>
   [(''BOT_AUTO_RESTART'', ''1'')] = AList.update ''BOT_AUTO_RESTART'' ''1'' [] \<and>
   main example_config [] [calm (Exited 1)] =
     (fst (main example_config [] [calm (Exited 1)]),
      Inr \<lparr>restart_count = 1, env = [(''BOT_AUTO_RESTART'', ''1'')]\<rparr>) \<and>
   env \<lparr>restart_count = 1, env = [(''BOT_AUTO_RESTART'', ''1'')]\<rparr> =
     AList.update ''BOT_AUTO_RESTART'' ''1'' []"
proof -
  have 1: "[(''BOT_AUTO_RESTART'', ''1'')] \<in> set (launch_envs (fst (main example_config []
      [calm (Exited 1), (calm (Exited 0))\<lparr>live_environ := [(''TZ'', ''UTC'')]\<rparr>])))"
    by (simp add: run_defs body_defs Let_def)
  have 2: "main example_config [] [calm (Exited 1)] =
     (fst (main example_config [] [calm (Exited 1)]),
      Inr \<lparr>restart_count = 1, env = [(''BOT_AUTO_RESTART'', ''1'')]\<rparr>)"
    by (simp add: run_defs body_defs Let_def)
  from overlay_computed_once [of example_config "[]"
      "[calm (Exited 1), (calm (Exited 0))\<lparr>live_environ := [(''TZ'', ''UTC'')]\<rparr>]"] 1
  have 3: "[(''BOT_AUTO_RESTART'', ''1'')] = AList.update ''BOT_AUTO_RESTART'' ''1'' []"
    by blast
  from overlay_computed_once [of example_config "[]" "[calm (Exited 1)]"] 2
  have 4: "env \<lparr>restart_count = 1, env = [(''BOT_AUTO_RESTART'', ''1'')]\<rparr> =
     AList.update ''BOT_AUTO_RESTART'' ''1'' []"
    by blast
  from 1 2 3 4 show ?thesis by blast
qed

text \<open>
  Claim C8. In every run, whatever the number of passes, the environment handed to each
  launch binds \<open>BOT_AUTO_RESTART\<close> to \<open>"1"\<close>.
\<close>

theorem marker_in_every_launch:
  "\<forall>ev\<in>set (launch_envs (fst (main cfg e ws))). map_of ev ''BOT_AUTO_RESTART'' = Some ''1''"
proof
  fix ev
  assume "ev \<in> set (launch_envs (fst (main cfg e ws)))"
  with launch_envs_main [of cfg e ws] have "ev = AList.update ''BOT_AUTO_RESTART'' ''1'' e"
    by auto
  then show "map_of ev ''BOT_AUTO_RESTART'' = Some ''1''" by (simp add: update_conv')
qed

theorem marker_in_every_launch_witness:
  "[(''PATH'', ''/usr/bin''), (''BOT_AUTO_RESTART'', ''1'')] \<in>
     set (launch_envs (fst (main example_config
       [(''PATH'', ''/usr/bin''), (''BOT_AUTO_RESTART'', ''0'')]
       [calm (Exited 1), calm (Exited 137), calm (Exited 0)]))) \<and>
   length (launch_envs (fst (main example_config
       [(''PATH'', ''/usr/bin''), (''BOT_AUTO_RESTART'', ''0'')]
       [calm (Exited 1), calm (Exited 137), calm (Exited 0)]))) = 3 \<and>
   map_of [(''PATH'', ''/usr/bin''), (''BOT_AUTO_RESTART'', ''1'')] ''BOT_AUTO_RESTART'' =
     Some ''1''"
proof -
  have 1: "[(''PATH'', ''/usr/bin''), (''BOT_AUTO_RESTART'', ''1'')] \<in>
     set (launch_envs (fst (main example_config
       [(''PATH'', ''/usr/bin''), (''BOT_AUTO_RESTART'', ''0'')]
       [calm (Exited 1), calm (Exited 137), calm (Exited 0)])))"
   and 2: "length (launch_envs (fst (main example_config
       [(''PATH'', ''/usr/bin''), (''BOT_AUTO_RESTART'', ''0'')]
       [calm (Exited 1), calm (Exited 137), calm (Exited 0)]))) = 3"
    by (simp_all add: run_defs body_defs Let_def)
  from marker_in_every_launch
    [of example_config "[(''PATH'', ''/usr/bin''), (''BOT_AUTO_RESTART'', ''0'')]"
      "[calm (Exited 1), calm (Exited 137), calm (Exited 0)]"] 1
  have "map_of [(''PATH'', ''/usr/bin''), (''BOT_AUTO_RESTART'', ''1'')] ''BOT_AUTO_RESTART'' =
     Some ''1''" by blast
  with 1 2 show ?thesis by blast
qed

section \<open>The restart counter\<close>




end
